theory Spec2Isabelle
  imports Complex_Main "HOL-Library.Log_Nat"
begin

section \<open>JavaScript values used by the resilience package\<close>

text \<open>
  Numbers that the package only counts with or compares (status codes, thresholds,
  attempt numbers, millisecond timestamps) are \<open>int\<close>. Delays, which the backoff
  formula multiplies by an arbitrary multiplier and by a random factor, are IEEE
  doubles: a \<open>number\<close> is a rational, an infinity or \<open>NaN\<close>, and every arithmetic
  operation rounds its exact result to the nearest double. Strings are \<open>string\<close>,
  restricted to ASCII.
\<close>

subsection \<open>Strings\<close>

text \<open>\<open>String(n)\<close> for an integer number: its decimal digits.\<close>

fun digits :: "nat \<Rightarrow> string" where
  "digits n = (if n < 10 then [char_of (48 + n)]
               else digits (n div 10) @ [char_of (48 + n mod 10)])"

declare digits.simps [simp del]

definition String_of_int :: "int \<Rightarrow> string" where
  "String_of_int i = (if i < 0 then CHR ''-'' # digits (nat (- i)) else digits (nat i))"

text \<open>\<open>s.toLowerCase()\<close> on ASCII.\<close>

definition lower_char :: "char \<Rightarrow> char" where
  "lower_char c = (let n = (of_char c :: nat) in
                   if 65 \<le> n \<and> n \<le> 90 then char_of (n + 32) else c)"

definition toLowerCase :: "string \<Rightarrow> string" where
  "toLowerCase s = map lower_char s"

text \<open>\<open>s.includes(p)\<close>: \<open>p\<close> occurs in \<open>s\<close> as a contiguous substring.\<close>

definition startsWith :: "string \<Rightarrow> string \<Rightarrow> bool" where
  "startsWith s p = (take (length p) s = p)"

fun includes_str :: "string \<Rightarrow> string \<Rightarrow> bool" where
  "includes_str [] p = (p = [])"
| "includes_str (c # cs) p = (startsWith (c # cs) p \<or> includes_str cs p)"

text \<open>
  \<open>parseInt(s, 10)\<close>: leading white space is skipped, one sign is accepted, and the
  longest run of decimal digits that follows is read; \<open>None\<close> is \<open>NaN\<close> (no digit).
\<close>

definition is_space :: "char \<Rightarrow> bool" where
  "is_space c = ((of_char c :: nat) \<in> {9, 10, 11, 12, 13, 32})"

definition is_digit :: "char \<Rightarrow> bool" where
  "is_digit c = (48 \<le> (of_char c :: nat) \<and> (of_char c :: nat) \<le> 57)"

definition digits_value :: "string \<Rightarrow> nat" where
  "digits_value ds = foldl (\<lambda>a c. 10 * a + ((of_char c :: nat) - 48)) 0 ds"

definition parseInt :: "string \<Rightarrow> int option" where
  "parseInt s =
     (let t = dropWhile is_space s;
          neg = (t \<noteq> [] \<and> hd t = CHR ''-'');
          u = (if t \<noteq> [] \<and> (hd t = CHR ''-'' \<or> hd t = CHR ''+'') then tl t else t);
          ds = takeWhile is_digit u
      in if ds = [] then None
         else Some (if neg then - int (digits_value ds) else int (digits_value ds)))"

subsection \<open>Numbers\<close>

text \<open>
  A JavaScript number. A finite number is the rational it denotes; the two zeros are
  not told apart.
\<close>

datatype number = Fin rat | PosInf | NegInf | NaN

text \<open>
  The binary exponent of a positive rational: \<open>ilog2 a\<close> is the integer \<open>e\<close> with
  \<open>2 ^ e \<le> a < 2 ^ (e + 1)\<close>, found from the bit lengths of numerator and
  denominator.
\<close>

definition ilog2 :: "rat \<Rightarrow> int" where
  "ilog2 a = (let (p, d) = quotient_of a; k = bitlen p - bitlen d
              in if 2 powi k \<le> a then k else k - 1)"

text \<open>Rounding to the nearest integer, a tie going to the even one.\<close>

definition rne :: "rat \<Rightarrow> int" where
  "rne x = (let f = \<lfloor>x\<rfloor>; r = x - of_int f
            in if r < 1 / 2 then f else if 1 / 2 < r then f + 1
               else if even f then f else f + 1)"

text \<open>
  The distance between neighbouring doubles around a positive rational: 52 binary
  places below its leading bit, and never below \<open>2 ^ - 1074\<close> (the subnormal range).
\<close>

definition quantum :: "rat \<Rightarrow> rat" where
  "quantum a = 2 powi (max (ilog2 a) (- 1022) - 52)"

definition round_pos :: "rat \<Rightarrow> rat" where
  "round_pos a = of_int (rne (a / quantum a)) * quantum a"

text \<open>
  The double nearest to an exact result (round to nearest, ties to even); a result
  that rounds to \<open>2 ^ 1024\<close> or beyond, that is, to a binary exponent of 1024 or
  more, overflows to an infinity.
\<close>

definition fl :: "rat \<Rightarrow> number" where
  "fl x = (if x = 0 then Fin 0
           else (let y = round_pos \<bar>x\<bar>
                 in if 1024 \<le> ilog2 y then (if 0 < x then PosInf else NegInf)
                    else Fin (if 0 < x then y else - y)))"


definition sign_of :: "number \<Rightarrow> int" where
  "sign_of x = (case x of Fin a \<Rightarrow> sgn \<lfloor>sgn a\<rfloor> | PosInf \<Rightarrow> 1 | NegInf \<Rightarrow> - 1 | NaN \<Rightarrow> 0)"

text \<open>The operators \<open>*\<close> and \<open>+\<close>.\<close>

definition js_times :: "number \<Rightarrow> number \<Rightarrow> number" where
  "js_times x y =
     (case (x, y) of
        (NaN, _) \<Rightarrow> NaN
      | (_, NaN) \<Rightarrow> NaN
      | (Fin a, Fin b) \<Rightarrow> fl (a * b)
      | _ \<Rightarrow> (let sg = sign_of x * sign_of y
              in if sg = 0 then NaN else if 0 < sg then PosInf else NegInf))"

definition js_plus :: "number \<Rightarrow> number \<Rightarrow> number" where
  "js_plus x y =
     (case (x, y) of
        (NaN, _) \<Rightarrow> NaN
      | (_, NaN) \<Rightarrow> NaN
      | (Fin a, Fin b) \<Rightarrow> fl (a + b)
      | (PosInf, NegInf) \<Rightarrow> NaN
      | (NegInf, PosInf) \<Rightarrow> NaN
      | (PosInf, _) \<Rightarrow> PosInf
      | (_, PosInf) \<Rightarrow> PosInf
      | _ \<Rightarrow> NegInf)"

definition Math_min :: "number \<Rightarrow> number \<Rightarrow> number" where
  "Math_min x y =
     (case (x, y) of
        (NaN, _) \<Rightarrow> NaN
      | (_, NaN) \<Rightarrow> NaN
      | (NegInf, _) \<Rightarrow> NegInf
      | (_, NegInf) \<Rightarrow> NegInf
      | (PosInf, _) \<Rightarrow> y
      | (_, PosInf) \<Rightarrow> x
      | (Fin a, Fin b) \<Rightarrow> Fin (min a b))"

text \<open>\<open>Math.round\<close>: the nearest integer, a tie going up. The result is exact.\<close>

definition Math_round :: "number \<Rightarrow> number" where
  "Math_round x = (case x of Fin a \<Rightarrow> Fin (of_int (round a)) | _ \<Rightarrow> x)"

text \<open>
  \<open>Math.pow(x, e)\<close> for an integer exponent, by the cases of the language
  specification; for a finite base the exact power is rounded to the nearest double.
\<close>

definition Math_pow :: "number \<Rightarrow> int \<Rightarrow> number" where
  "Math_pow x e =
     (if e = 0 then Fin 1
      else (case x of
              NaN \<Rightarrow> NaN
            | PosInf \<Rightarrow> if 0 < e then PosInf else Fin 0
            | NegInf \<Rightarrow> if 0 < e then (if odd e then NegInf else PosInf) else Fin 0
            | Fin m \<Rightarrow> if 0 < e then fl (m ^ nat e)
                       else if m = 0 then PosInf
                       else fl (1 / m ^ nat (- e))))"

subsection \<open>Thrown values\<close>

text \<open>
  The own properties that the package probes on a thrown value
  (\<open>typeof err.statusCode === "number"\<close> and so on); \<open>None\<close> is a property that is
  absent or has another type.
\<close>

record js_props =
  name :: string
  message :: string
  statusCode :: "int option"
  status :: "int option"
  code :: "string option"
  isRetryable :: "bool option"

text \<open>
  What an operation can reject with: an \<open>Error\<close> with any of the probed properties
  attached, one of the three error classes of the package, an object that is not an
  \<open>Error\<close>, or a primitive (given by its \<open>String(...)\<close> rendering).
\<close>

datatype thrown =
    PlainError js_props
  | TimeoutError string int
  | CircuitBreakerOpenError string int
  | RetryError string int thrown
  | NonError js_props
  | Primitive string

text \<open>\<open>Math.ceil(ms / 1000)\<close> on an integer number of milliseconds.\<close>

definition ceil_seconds :: "int \<Rightarrow> int" where
  "ceil_seconds ms = - ((- ms) div 1000)"

text \<open>\<open>error instanceof Error\<close>.\<close>

fun instanceof_Error :: "thrown \<Rightarrow> bool" where
  "instanceof_Error (NonError p) = False"
| "instanceof_Error (Primitive s) = False"
| "instanceof_Error e = True"

text \<open>\<open>error && typeof error === "object"\<close>.\<close>

fun is_object :: "thrown \<Rightarrow> bool" where
  "is_object (Primitive s) = False"
| "is_object e = True"

fun err_name :: "thrown \<Rightarrow> string" where
  "err_name (PlainError p) = name p"
| "err_name (TimeoutError operation timeoutMs) = ''TimeoutError''"
| "err_name (CircuitBreakerOpenError serviceName remaining) = ''CircuitBreakerOpenError''"
| "err_name (RetryError msg attempts lastErr) = ''RetryError''"
| "err_name (NonError p) = name p"
| "err_name (Primitive s) = []"

fun err_message :: "thrown \<Rightarrow> string" where
  "err_message (PlainError p) = message p"
| "err_message (TimeoutError operation timeoutMs) =
     ''Operation '' @ [CHR 0x27] @ operation @ [CHR 0x27] @ '' timed out after ''
       @ String_of_int timeoutMs @ ''ms''"
| "err_message (CircuitBreakerOpenError serviceName remaining) =
     ''Circuit breaker '' @ [CHR 0x27] @ serviceName @ [CHR 0x27] @ '' is OPEN, retry after ''
       @ String_of_int (ceil_seconds remaining) @ ''s''"
| "err_message (RetryError msg attempts lastErr) = msg"
| "err_message (NonError p) = message p"
| "err_message (Primitive s) = []"

fun err_statusCode :: "thrown \<Rightarrow> int option" where
  "err_statusCode (PlainError p) = statusCode p"
| "err_statusCode (NonError p) = statusCode p"
| "err_statusCode e = None"

fun err_status :: "thrown \<Rightarrow> int option" where
  "err_status (PlainError p) = status p"
| "err_status (NonError p) = status p"
| "err_status e = None"

fun err_code :: "thrown \<Rightarrow> string option" where
  "err_code (PlainError p) = code p"
| "err_code (TimeoutError operation timeoutMs) = Some ''TIMEOUT''"
| "err_code (CircuitBreakerOpenError serviceName remaining) = Some ''CIRCUIT_OPEN''"
| "err_code (RetryError msg attempts lastErr) = Some ''RETRY_EXHAUSTED''"
| "err_code (NonError p) = code p"
| "err_code (Primitive s) = None"

fun err_isRetryable :: "thrown \<Rightarrow> bool option" where
  "err_isRetryable (PlainError p) = isRetryable p"
| "err_isRetryable (TimeoutError operation timeoutMs) = Some True"
| "err_isRetryable (CircuitBreakerOpenError serviceName remaining) = Some False"
| "err_isRetryable (RetryError msg attempts lastErr) = Some False"
| "err_isRetryable (NonError p) = isRetryable p"
| "err_isRetryable (Primitive s) = None"

text \<open>\<open>String(error)\<close>, as \<open>withRetry\<close> applies it to a value that is not an \<open>Error\<close>.\<close>

fun String_of_thrown :: "thrown \<Rightarrow> string" where
  "String_of_thrown (Primitive s) = s"
| "String_of_thrown (NonError p) = ''[object Object]''"
| "String_of_thrown e = err_name e @ '': '' @ err_message e"

text \<open>\<open>new Error(msg)\<close>.\<close>

definition new_Error :: "string \<Rightarrow> thrown" where
  "new_Error msg = PlainError \<lparr>name = ''Error'', message = msg, statusCode = None,
     status = None, code = None, isRetryable = None\<rparr>"

section \<open>The world the package runs in\<close>

datatype CircuitState = Closed | Open | HalfOpen

record CircuitBreakerState =
  state :: CircuitState
  failureCount :: int
  successCount :: int
  lastFailureTime :: "int option"
  openedAt :: "int option"
  lastError :: "string option"

text \<open>
  Everything outside a call that the package reads or writes: the clock behind
  \<open>Date.now()\<close>, the pending timers of \<open>setTimeout\<close> (identifier and due time),
  the values \<open>Math.random()\<close> will return, the module-level \<open>circuitRegistry\<close>,
  and the caller's own state \<open>user\<close> (what a wrapped operation changes when it runs).
\<close>

record 'u env =
  clock :: int
  timers :: "(nat \<times> int) list"
  nextTimerId :: nat
  randoms :: "rat list"
  circuitRegistry :: "string \<rightharpoonup> CircuitBreakerState"
  user :: 'u

text \<open>An asynchronous operation: run in a world, it settles with a rejection or a value.\<close>

type_synonym ('u, 'a) async = "'u env \<Rightarrow> (thrown + 'a) \<times> 'u env"

text \<open>\<open>Math.random()\<close>: the next value of the stream (a real stream never ends).\<close>

definition Math_random :: "'u env \<Rightarrow> rat \<times> 'u env" where
  "Math_random s = (case randoms s of [] \<Rightarrow> (0, s) | r # rs \<Rightarrow> (r, s\<lparr>randoms := rs\<rparr>))"

section \<open>Retry with exponential backoff\<close>

record RetryConfig =
  maxAttempts :: int
  baseDelayMs :: number
  maxDelayMs :: number
  backoffMultiplier :: "number option"
  jitter :: "bool option"
  retryableStatusCodes :: "int list option"
  retryableErrorCodes :: "string list option"

text \<open>
  \<open>Math.random()\<close> is a double in \<open>[0, 1)\<close>; the attempt number is an integer, so
  \<open>attempt - 1\<close> is exact.
\<close>

definition calculateRetryDelay :: "int \<Rightarrow> RetryConfig \<Rightarrow> 'u env \<Rightarrow> number \<times> 'u env" where
  "calculateRetryDelay attempt config s =
     (let multiplier = (case backoffMultiplier config of None \<Rightarrow> Fin 2 | Some m \<Rightarrow> m);
          delay = js_times (baseDelayMs config) (Math_pow multiplier (attempt - 1));
          delay = Math_min delay (maxDelayMs config)
      in if jitter config = Some True
         then (let (r, s') = Math_random s;
                   jitterFactor = js_plus (Fin (1 / 2)) (Fin r)
               in (Math_round (js_times delay jitterFactor), s'))
         else (delay, s))"

definition DEFAULT_RETRYABLE_STATUS_CODES :: "int list" where
  "DEFAULT_RETRYABLE_STATUS_CODES = [429, 500, 502, 503, 504]"

definition retryableNames :: "string list" where
  "retryableNames = [''TimeoutError'', ''AbortError'', ''NetworkError'']"

definition retryablePatterns :: "string list" where
  "retryablePatterns = [''timeout'', ''timed out'', ''rate limit'', ''too many requests'',
     ''service unavailable'', ''bad gateway'', ''gateway timeout'', ''network error'',
     ''connection refused'', ''econnreset'']"

definition isRetryableError :: "thrown \<Rightarrow> RetryConfig \<Rightarrow> bool" where
  "isRetryableError error config =
     (let retryableCodes = (case retryableStatusCodes config of
                              None \<Rightarrow> DEFAULT_RETRYABLE_STATUS_CODES | Some l \<Rightarrow> l);
          errorCodes = (case retryableErrorCodes config of None \<Rightarrow> [] | Some l \<Rightarrow> l)
      in if \<not> instanceof_Error error then False
         else if (case err_statusCode error of
                    Some n \<Rightarrow> n \<in> set retryableCodes | None \<Rightarrow> False) then True
         else if (case err_status error of
                    Some n \<Rightarrow> n \<in> set retryableCodes | None \<Rightarrow> False) then True
         else if (case err_code error of
                    Some c \<Rightarrow> (case parseInt c of
                                  Some numericCode \<Rightarrow> numericCode \<in> set retryableCodes
                                | None \<Rightarrow> False)
                              \<or> c \<in> set errorCodes
                  | None \<Rightarrow> False) then True
         else (case err_isRetryable error of
                 Some b \<Rightarrow> b
               | None \<Rightarrow>
                   if err_name error \<in> set retryableNames then True
                   else list_ex (includes_str (toLowerCase (err_message error)))
                          retryablePatterns))"

subsection \<open>Timers\<close>

text \<open>
  \<open>setTimeout\<close> registers a pending timer due \<open>ms\<close> milliseconds from now (a negative
  delay counts as zero) and returns its identifier; \<open>clearTimeout\<close> removes it.
  When time passes, \<open>elapse\<close>, the timers that have become due fire and are no
  longer pending.
\<close>

definition setTimeout :: "int \<Rightarrow> 'u env \<Rightarrow> nat \<times> 'u env" where
  "setTimeout ms s =
     (nextTimerId s,
      s\<lparr>timers := timers s @ [(nextTimerId s, clock s + max 0 ms)],
        nextTimerId := Suc (nextTimerId s)\<rparr>)"

definition clearTimeout :: "nat \<Rightarrow> 'u env \<Rightarrow> 'u env" where
  "clearTimeout timeoutId s = s\<lparr>timers := filter (\<lambda>t. fst t \<noteq> timeoutId) (timers s)\<rparr>"

definition elapse :: "int \<Rightarrow> 'u env \<Rightarrow> 'u env" where
  "elapse d s = s\<lparr>clock := clock s + d,
                  timers := filter (\<lambda>t. clock s + d < snd t) (timers s)\<rparr>"

text \<open>
  The whole milliseconds a timer waits for a delay given as a number: the fractional
  part is dropped, and a delay that is not finite counts as zero.
\<close>

definition timer_delay :: "number \<Rightarrow> int" where
  "timer_delay ms = (case ms of Fin a \<Rightarrow> \<lfloor>a\<rfloor> | _ \<Rightarrow> 0)"

text \<open>
  \<open>sleep(ms)\<close> resolves when its own timer fires: the caller resumes \<open>ms\<close>
  milliseconds later.
\<close>

definition sleep :: "number \<Rightarrow> 'u env \<Rightarrow> 'u env" where
  "sleep ms s = (let (timeoutId, s1) = setTimeout (timer_delay ms) s
                 in elapse (max 0 (timer_delay ms)) s1)"

subsection \<open>withRetry\<close>

record RetryContext =
  ctx_attempt :: int
  ctx_maxAttempts :: int
  ctx_lastError :: thrown
  ctx_delayMs :: number

definition RETRY_CONFIGS_EXTERNAL_API :: RetryConfig where
  "RETRY_CONFIGS_EXTERNAL_API = \<lparr>maxAttempts = 3, baseDelayMs = Fin 1000,
     maxDelayMs = Fin 10000, backoffMultiplier = Some (Fin 2), jitter = Some True,
     retryableStatusCodes = Some [429, 500, 502, 503, 504], retryableErrorCodes = None\<rparr>"

text \<open>The statement after the loop: \<open>throw new RetryError(...)\<close>.\<close>

definition throw_RetryError :: "RetryConfig \<Rightarrow> thrown option \<Rightarrow> thrown" where
  "throw_RetryError config lastErr =
     RetryError
       (''Operation failed after '' @ String_of_int (maxAttempts config) @ '' attempts: ''
          @ (case lastErr of None \<Rightarrow> ''undefined'' | Some e \<Rightarrow> err_message e))
       (maxAttempts config)
       (case lastErr of None \<Rightarrow> new_Error ''Unknown error'' | Some e \<Rightarrow> e)"

text \<open>
  The \<open>for\<close> loop of \<open>withRetry\<close>, entered at \<open>attempt\<close> with the error
  recorded so far (\<open>lastErr\<close>, the variable \<open>lastError\<close> of the source). A
  \<open>break\<close> leaves the loop for the \<open>throw\<close> that follows it.
  The progress callback \<open>onRetry\<close> is a state change of the caller's.
\<close>

function withRetry_loop ::
  "('u, 'a) async \<Rightarrow> RetryConfig \<Rightarrow> (RetryContext \<Rightarrow> 'u env \<Rightarrow> 'u env) option
     \<Rightarrow> int \<Rightarrow> thrown option \<Rightarrow> 'u env \<Rightarrow> (thrown + 'a) \<times> 'u env" where
  "withRetry_loop operation config onRetry attempt lastErr s =
     (if attempt \<le> maxAttempts config then
        (case operation s of
           (Inr result, s1) \<Rightarrow> (Inr result, s1)
         | (Inl error, s1) \<Rightarrow>
             (let err = (if instanceof_Error error then error
                         else new_Error (String_of_thrown error))
              in if attempt \<ge> maxAttempts config
                 then (Inl (throw_RetryError config (Some err)), s1)
                 else if \<not> isRetryableError error config
                 then (Inl (throw_RetryError config (Some err)), s1)
                 else (let (delayMs, s2) = calculateRetryDelay attempt config s1;
                           s3 = (case onRetry of
                                   None \<Rightarrow> s2
                                 | Some f \<Rightarrow> f \<lparr>ctx_attempt = attempt,
                                                ctx_maxAttempts = maxAttempts config,
                                                ctx_lastError = err,
                                                ctx_delayMs = delayMs\<rparr> s2);
                           s4 = sleep delayMs s3
                       in withRetry_loop operation config onRetry (attempt + 1) (Some err) s4)))
      else (Inl (throw_RetryError config lastErr), s))"
  by pat_completeness auto
termination
  by (relation "measure (\<lambda>(operation, config, onRetry, attempt, lastErr, s).
                           nat (maxAttempts config + 1 - attempt))") auto

declare withRetry_loop.simps [simp del]

definition withRetry ::
  "('u, 'a) async \<Rightarrow> RetryConfig option \<Rightarrow> (RetryContext \<Rightarrow> 'u env \<Rightarrow> 'u env) option
     \<Rightarrow> ('u, 'a) async" where
  "withRetry operation config onRetry s =
     withRetry_loop operation
       (case config of None \<Rightarrow> RETRY_CONFIGS_EXTERNAL_API | Some c \<Rightarrow> c) onRetry 1 None s"

section \<open>Circuit breaker\<close>

record CircuitBreakerConfig =
  failureThreshold :: int
  resetTimeoutMs :: int
  successThreshold :: int
  ignoredStatusCodes :: "int list option"


text \<open>A handle: the private fields \<open>_name\<close> and \<open>_config\<close> of the class.\<close>

record CircuitBreaker =
  cb_name :: string
  cb_config :: CircuitBreakerConfig

type_synonym registry = "string \<rightharpoonup> CircuitBreakerState"

definition initial_state :: CircuitBreakerState where
  "initial_state = \<lparr>state = Closed, failureCount = 0, successCount = 0,
     lastFailureTime = None, openedAt = None, lastError = None\<rparr>"


definition getState :: "CircuitBreaker \<Rightarrow> registry \<Rightarrow> CircuitBreakerState" where
  "getState b reg = (case reg (cb_name b) of Some current \<Rightarrow> current | None \<Rightarrow> initial_state)"

text \<open>
  \<open>setState(update)\<close> stores \<open>{ ...current, ...update }\<close>; the partial record
  \<open>update\<close> is the function that overwrites the fields it lists.
\<close>

definition setState ::
  "CircuitBreaker \<Rightarrow> (CircuitBreakerState \<Rightarrow> CircuitBreakerState) \<Rightarrow> registry \<Rightarrow> registry" where
  "setState b update reg = reg(cb_name b \<mapsto> update (getState b reg))"

text \<open>A timestamp used as a condition (\<open>!openedAt\<close>): absent and \<open>0\<close> are falsy.\<close>

fun truthy :: "int option \<Rightarrow> bool" where
  "truthy None = False"
| "truthy (Some t) = (t \<noteq> 0)"

definition transitionTo :: "CircuitBreaker \<Rightarrow> int \<Rightarrow> CircuitState \<Rightarrow> registry \<Rightarrow> registry" where
  "transitionTo b now newState reg =
     setState b
       (case newState of
          Open \<Rightarrow> (\<lambda>c. c\<lparr>state := Open, openedAt := Some now, successCount := 0\<rparr>)
        | HalfOpen \<Rightarrow> (\<lambda>c. c\<lparr>state := HalfOpen, successCount := 0\<rparr>)
        | Closed \<Rightarrow> (\<lambda>c. c\<lparr>state := Closed, failureCount := 0, successCount := 0,
                            openedAt := None, lastError := None\<rparr>))
       reg"

definition remainingTimeoutMs :: "CircuitBreaker \<Rightarrow> int \<Rightarrow> registry \<Rightarrow> int" where
  "remainingTimeoutMs b now reg =
     (let current = getState b reg
      in if state current \<noteq> Open \<or> \<not> truthy (openedAt current) then 0
         else (let elapsed = now - the (openedAt current);
                   remaining = resetTimeoutMs (cb_config b) - elapsed
               in if remaining > 0 then remaining else 0))"

text \<open>
  The snapshot returned by \<open>stats\<close>. The source renders \<open>lastFailureTime\<close> as an
  ISO-8601 string; the snapshot here keeps the timestamp itself.
\<close>

record CircuitBreakerStats =
  stats_name :: string
  stats_state :: CircuitState
  stats_failureCount :: int
  stats_successCount :: int
  stats_lastFailureTime :: "int option"
  stats_lastError :: "string option"
  stats_remainingTimeoutMs :: int

definition stats :: "CircuitBreaker \<Rightarrow> int \<Rightarrow> registry \<Rightarrow> CircuitBreakerStats" where
  "stats b now reg =
     (let current = getState b reg
      in \<lparr>stats_name = cb_name b,
          stats_state = state current,
          stats_failureCount = failureCount current,
          stats_successCount = successCount current,
          stats_lastFailureTime =
            (if truthy (lastFailureTime current) then lastFailureTime current else None),
          stats_lastError = lastError current,
          stats_remainingTimeoutMs = remainingTimeoutMs b now reg\<rparr>)"

definition checkStateTransition :: "CircuitBreaker \<Rightarrow> int \<Rightarrow> registry \<Rightarrow> registry" where
  "checkStateTransition b now reg =
     (let current = getState b reg
      in if state current = Open \<and> truthy (openedAt current)
         then (let elapsed = now - the (openedAt current)
               in if elapsed \<ge> resetTimeoutMs (cb_config b)
                  then transitionTo b now HalfOpen reg
                  else reg)
         else reg)"

definition onSuccess :: "CircuitBreaker \<Rightarrow> int \<Rightarrow> registry \<Rightarrow> registry" where
  "onSuccess b now reg =
     (let current = getState b reg
      in if state current = HalfOpen
         then (let newCount = successCount current + 1
               in if newCount \<ge> successThreshold (cb_config b)
                  then transitionTo b now Closed reg
                  else setState b (\<lambda>c. c\<lparr>successCount := newCount\<rparr>) reg)
         else if state current = Closed
         then setState b (\<lambda>c. c\<lparr>failureCount := 0\<rparr>) reg
         else reg)"

definition shouldIgnoreError :: "CircuitBreaker \<Rightarrow> thrown \<Rightarrow> bool" where
  "shouldIgnoreError b error =
     (let ignoredCodes = (case ignoredStatusCodes (cb_config b) of None \<Rightarrow> [] | Some l \<Rightarrow> l)
      in if is_object error
         then (if (case err_statusCode error of
                     Some n \<Rightarrow> n \<in> set ignoredCodes | None \<Rightarrow> False) then True
               else if (case err_status error of
                          Some n \<Rightarrow> n \<in> set ignoredCodes | None \<Rightarrow> False) then True
               else (case err_code error of
                       Some c \<Rightarrow> (case parseInt c of
                                     Some numericCode \<Rightarrow> numericCode \<in> set ignoredCodes
                                   | None \<Rightarrow> False)
                     | None \<Rightarrow> False))
         else False)"

definition onFailure :: "CircuitBreaker \<Rightarrow> int \<Rightarrow> thrown \<Rightarrow> registry \<Rightarrow> registry" where
  "onFailure b now error reg =
     (if shouldIgnoreError b error then reg
      else (let errorMessage = (if instanceof_Error error then err_message error
                                else String_of_thrown error);
                current = getState b reg;
                reg1 = setState b (\<lambda>c. c\<lparr>lastFailureTime := Some now,
                                          lastError := Some (take 200 errorMessage)\<rparr>) reg
            in if state current = HalfOpen
               then transitionTo b now Open reg1
               else if state current = Closed
               then (let newCount = failureCount current + 1
                     in if newCount \<ge> failureThreshold (cb_config b)
                        then transitionTo b now Open reg1
                        else setState b (\<lambda>c. c\<lparr>failureCount := newCount\<rparr>) reg1)
               else reg1))"

text \<open>
  \<open>call(operation)\<close>. The clock is read when the call starts and again when the
  operation has settled; the operation runs in the world left by the time-based check.
\<close>

definition call :: "CircuitBreaker \<Rightarrow> ('u, 'a) async \<Rightarrow> ('u, 'a) async" where
  "call b operation s =
     (let s1 = s\<lparr>circuitRegistry := checkStateTransition b (clock s) (circuitRegistry s)\<rparr>;
          currentState = getState b (circuitRegistry s1)
      in if state currentState = Open
         then (Inl (CircuitBreakerOpenError (cb_name b)
                      (remainingTimeoutMs b (clock s1) (circuitRegistry s1))), s1)
         else (case operation s1 of
                 (Inr result, s2) \<Rightarrow>
                   (Inr result,
                    s2\<lparr>circuitRegistry := onSuccess b (clock s2) (circuitRegistry s2)\<rparr>)
               | (Inl error, s2) \<Rightarrow>
                   (Inl error,
                    s2\<lparr>circuitRegistry := onFailure b (clock s2) error (circuitRegistry s2)\<rparr>)))"

section \<open>Timeouts\<close>

definition DEFAULT_TIMEOUTS_EXTERNAL_API :: int where
  "DEFAULT_TIMEOUTS_EXTERNAL_API = 10000"

text \<open>
  A promise that is already under way, as \<open>withTimeout\<close> receives it: it settles
  with an outcome some milliseconds from now, or never does.
\<close>

datatype 'a promise = Settles "thrown + 'a" int | Never

text \<open>
  \<open>withTimeout\<close>: the timer is set, the race is decided (the promise wins when it
  settles no later than the timer is due), and the \<open>finally\<close> block clears the
  timer on either path.
\<close>

definition withTimeout ::
  "'a promise \<Rightarrow> int \<Rightarrow> string option \<Rightarrow> 'u env \<Rightarrow> (thrown + 'a) \<times> 'u env" where
  "withTimeout p timeoutMs operation s =
     (let label = (case operation of None \<Rightarrow> ''unknown'' | Some l \<Rightarrow> l);
          (timeoutId, s1) = setTimeout timeoutMs s;
          (result, s2) =
            (case p of
               Settles outcome d \<Rightarrow>
                 if d \<le> max 0 timeoutMs then (outcome, elapse (max 0 d) s1)
                 else (Inl (TimeoutError label timeoutMs), elapse (max 0 timeoutMs) s1)
             | Never \<Rightarrow> (Inl (TimeoutError label timeoutMs), elapse (max 0 timeoutMs) s1))
      in (result, clearTimeout timeoutId s2))"

text \<open>\<open>createTimeoutController\<close>: the timer that will abort the controller is set and
  the controller is returned; the identifier of the timer is dropped.\<close>

record AbortController =
  aborted :: bool

definition createTimeoutController :: "int \<Rightarrow> 'u env \<Rightarrow> AbortController \<times> 'u env" where
  "createTimeoutController timeoutMs s =
     (let (timeoutId, s1) = setTimeout timeoutMs s in (\<lparr>aborted = False\<rparr>, s1))"

text \<open>
  The transport behind \<open>fetch\<close>, already applied to the URL and the options: started
  in a world, it says how the request would settle if nobody aborted it, and leaves
  the world in which it was started.
\<close>

record Response =
  response_status :: int
  response_body :: string

type_synonym 'u transport = "'u env \<Rightarrow> Response promise \<times> 'u env"

definition AbortError :: thrown where
  "AbortError = PlainError \<lparr>name = ''AbortError'', message = ''The signal has been aborted'',
     statusCode = None, status = None, code = None, isRetryable = None\<rparr>"

text \<open>
  \<open>fetchWithTimeout\<close>: when the abort timer becomes due before the request has
  settled, the request rejects with an \<open>AbortError\<close>; the \<open>catch\<close> block turns an
  \<open>AbortError\<close> into a \<open>TimeoutError\<close>, and the \<open>finally\<close> block clears the timer.
\<close>

definition fetchWithTimeout :: "'u transport \<Rightarrow> int option \<Rightarrow> ('u, Response) async" where
  "fetchWithTimeout fetch timeoutArg s =
     (let timeoutMs = (case timeoutArg of None \<Rightarrow> DEFAULT_TIMEOUTS_EXTERNAL_API | Some t \<Rightarrow> t);
          (timeoutId, s1) = setTimeout timeoutMs s;
          (p, s2) = fetch s1;
          (settled, s3) =
            (case p of
               Settles outcome d \<Rightarrow>
                 if d < max 0 timeoutMs then (outcome, elapse (max 0 d) s2)
                 else (Inl AbortError, elapse (max 0 timeoutMs) s2)
             | Never \<Rightarrow> (Inl AbortError, elapse (max 0 timeoutMs) s2));
          result =
            (case settled of
               Inr response \<Rightarrow> Inr response
             | Inl error \<Rightarrow>
                 if instanceof_Error error \<and> err_name error = ''AbortError''
                 then Inl (TimeoutError ''fetch'' timeoutMs)
                 else Inl error)
      in (result, clearTimeout timeoutId s3))"

section \<open>resilientFetch\<close>

datatype timeout_setting = TimeoutNumber int | TimeoutObject int

text \<open>A layer is switched off (\<open>false\<close>) or given its own configuration.\<close>

datatype 'c layer = Disabled | Configured 'c

record ResilientFetchConfig =
  serviceName :: "string option"
  timeout :: "timeout_setting option"
  circuitBreaker :: "CircuitBreakerConfig layer option"
  retry :: "RetryConfig layer option"

text \<open>The error built for a response with a server-error status.\<close>

definition http_error :: "int \<Rightarrow> thrown" where
  "http_error n = PlainError \<lparr>name = ''Error'', message = ''HTTP '' @ String_of_int n,
     statusCode = Some n, status = None, code = None, isRetryable = None\<rparr>"

text \<open>The closure \<open>operation\<close> of \<open>resilientFetch\<close>.\<close>

definition operation :: "'u transport \<Rightarrow> int \<Rightarrow> ('u, Response) async" where
  "operation fetch timeoutMs s =
     (case fetchWithTimeout fetch (Some timeoutMs) s of
        (Inr response, s1) \<Rightarrow>
          if response_status response \<ge> 500
          then (Inl (http_error (response_status response)), s1)
          else (Inr response, s1)
      | (Inl error, s1) \<Rightarrow> (Inl error, s1))"


section \<open>Scenarios\<close>

text \<open>
  An operation that always rejects, with an error satisfying \<open>P\<close>, and one that
  always resolves. Neither touches the registry of circuit breakers, and time does
  not run backwards while the first one runs.
\<close>

definition rejects_with :: "(thrown \<Rightarrow> bool) \<Rightarrow> ('u, 'a) async \<Rightarrow> bool" where
  "rejects_with P f \<longleftrightarrow>
     (\<forall>s. \<exists>e s'. f s = (Inl e, s') \<and> P e
        \<and> circuitRegistry s' = circuitRegistry s \<and> clock s \<le> clock s')"


text \<open>Successive calls through one handle, each with its own operation.\<close>

fun calls :: "CircuitBreaker \<Rightarrow> ('u, 'a) async list \<Rightarrow> 'u env \<Rightarrow> 'u env" where
  "calls b [] s = s"
| "calls b (f # fs) s = calls b fs (snd (call b f s))"

text \<open>Timer identifiers are handed out in increasing order: every pending timer has an
  identifier below the next one.\<close>

definition timers_wf :: "'u env \<Rightarrow> bool" where
  "timers_wf s \<longleftrightarrow> (\<forall>t\<in>set (timers s). fst t < nextTimerId s)"


section \<open>Example inputs\<close>

definition world0 :: "nat env" where
  "world0 = \<lparr>clock = 1000, timers = [], nextTimerId = 0, randoms = [], circuitRegistry = Map.empty, user = 0\<rparr>"



definition error_404 :: thrown where
  "error_404 = PlainError \<lparr>name = ''Error'', message = ''Not found'', statusCode = Some 404, status = None, code = None, isRetryable = None\<rparr>"

definition three_attempts :: RetryConfig where
  "three_attempts = \<lparr>maxAttempts = 3, baseDelayMs = Fin 10, maxDelayMs = Fin 100,
     backoffMultiplier = None, jitter = None, retryableStatusCodes = None, retryableErrorCodes = None\<rparr>"

definition rejecting :: "thrown \<Rightarrow> (nat, 'a) async" where
  "rejecting e s = (Inl e, s\<lparr>user := Suc (user s)\<rparr>)"


definition example_power :: RetryConfig where
  "example_power = \<lparr>maxAttempts = 50, baseDelayMs = Fin 1,
     maxDelayMs = Fin 10000000000000000000, backoffMultiplier = Some (Fin 3),
     jitter = Some False, retryableStatusCodes = None, retryableErrorCodes = None\<rparr>"


definition error_500 :: thrown where
  "error_500 = PlainError \<lparr>name = ''Error'', message = ''Persistent failure'',
     statusCode = Some 500, status = None, code = None, isRetryable = None\<rparr>"

definition resolving :: "'a \<Rightarrow> (nat, 'a) async" where
  "resolving v s = (Inr v, s\<lparr>user := Suc (user s)\<rparr>)"

definition breaker_two :: CircuitBreaker where
  "breaker_two = \<lparr>cb_name = ''svc'', cb_config = \<lparr>failureThreshold = 2, resetTimeoutMs = 1000,
     successThreshold = 2, ignoredStatusCodes = Some [400, 404]\<rparr>\<rparr>"

definition breaker_no_wait :: CircuitBreaker where
  "breaker_no_wait = \<lparr>cb_name = ''svc'', cb_config = \<lparr>failureThreshold = 1, resetTimeoutMs = 0,
     successThreshold = 2, ignoredStatusCodes = Some [400, 404]\<rparr>\<rparr>"


definition error_404_status :: thrown where
  "error_404_status = NonError \<lparr>name = ''Response'', message = [], statusCode = None,
     status = Some 404, code = None, isRetryable = None\<rparr>"



definition world_timer :: "nat env" where
  "world_timer = world0\<lparr>timers := [(0, 1500)], nextTimerId := 1\<rparr>"

definition server :: "int \<Rightarrow> int \<Rightarrow> nat transport" where
  "server n d s = (Settles (Inr \<lparr>response_status = n, response_body = []\<rparr>) d,
                   s\<lparr>user := Suc (user s)\<rparr>)"

section \<open>Properties of the retry delay\<close>

subsection \<open>Rounding to a double\<close>




lemma pow2_pos [simp]: "(0::rat) < 2 powi k"
  by (simp add: zero_less_power_int)

lemma pow2_mono: "k \<le> l \<Longrightarrow> (2::rat) powi k \<le> 2 powi l"
  by (rule power_int_increasing) simp_all

lemma pow2_less_cancel: "(2::rat) powi k < 2 powi l \<Longrightarrow> k < l"
  by (metis linorder_not_less pow2_mono)

lemma pow2_nat: "0 \<le> k \<Longrightarrow> (2::rat) powi k = of_int (2 ^ nat k)"
  by (simp add: power_int_nonneg_exp)

lemma ilog2_bounds:
  assumes "0 < a"
  shows "2 powi (ilog2 a) \<le> a \<and> a < 2 powi (ilog2 a + 1)"
proof -
  obtain p d where pd: "quotient_of a = (p, d)" by (cases "quotient_of a")
  have d: "0 < d" using quotient_of_denom_pos[OF pd] .
  have a: "a = of_int p / of_int d" using quotient_of_div[OF pd] .
  have p: "0 < p" using assms d unfolding a by (simp add: zero_less_divide_iff)
  define k where "k = bitlen p - bitlen d"
  from bitlen_bounds[OF p] have pb: "(2::int) ^ nat (bitlen p - 1) \<le> p" "p < 2 ^ nat (bitlen p)"
    by simp_all
  from bitlen_bounds[OF d] have db: "(2::int) ^ nat (bitlen d - 1) \<le> d" "d < 2 ^ nat (bitlen d)"
    by simp_all
  have bp: "1 \<le> bitlen p" and bd: "1 \<le> bitlen d"
    using p d bitlen_eq_zero_iff[of p] bitlen_eq_zero_iff[of d] bitlen_nonneg[of p]
      bitlen_nonneg[of d] by linarith+
  have P1: "(2::rat) powi (bitlen p - 1) \<le> of_int p"
    using pb(1) bp by (simp add: pow2_nat del: of_int_power)
  have P2: "(of_int p :: rat) < 2 powi (bitlen p)"
    using pb(2) bp by (simp add: pow2_nat del: of_int_power)
  have D1: "(2::rat) powi (bitlen d - 1) \<le> of_int d"
    using db(1) bd by (simp add: pow2_nat del: of_int_power)
  have D2: "(of_int d :: rat) < 2 powi (bitlen d)"
    using db(2) bd by (simp add: pow2_nat del: of_int_power)
  have dpos: "(0::rat) < of_int d" using d by simp
  have lower: "(2::rat) powi (k - 1) \<le> a"
  proof -
    have "(2::rat) powi (k - 1) * of_int d \<le> 2 powi (k - 1) * 2 powi (bitlen d)"
      using D2 by (intro mult_left_mono) simp_all
    also have "\<dots> = 2 powi (bitlen p - 1)"
      unfolding k_def by (simp add: power_int_add[symmetric])
    also have "\<dots> \<le> of_int p" by (rule P1)
    finally show ?thesis unfolding a using dpos by (simp add: pos_le_divide_eq)
  qed
  have upper: "a < (2::rat) powi (k + 1)"
  proof -
    have "of_int p < (2::rat) powi (bitlen p)" by (rule P2)
    also have "\<dots> = 2 powi (k + 1) * 2 powi (bitlen d - 1)"
      unfolding k_def by (simp add: power_int_add[symmetric])
    also have "\<dots> \<le> 2 powi (k + 1) * of_int d"
      using D1 by (intro mult_left_mono) simp_all
    finally show ?thesis unfolding a using dpos by (simp add: pos_divide_less_eq)
  qed
  show ?thesis
  proof (cases "(2::rat) powi k \<le> a")
    case True
    hence "ilog2 a = k" by (simp add: ilog2_def pd k_def)
    with True upper show ?thesis by simp
  next
    case False
    hence "ilog2 a = k - 1" by (simp add: ilog2_def pd k_def)
    with False lower show ?thesis by simp
  qed
qed


lemma ilog2_unique:
  assumes "2 powi e \<le> a" "a < 2 powi (e + 1)" shows "ilog2 a = e"
proof -
  have pos: "0 < a" using assms(1) pow2_pos[of e] by linarith
  from ilog2_bounds[OF pos] assms
  have "(2::rat) powi (ilog2 a) < 2 powi (e + 1)" "(2::rat) powi e < 2 powi (ilog2 a + 1)"
    by linarith+
  from pow2_less_cancel[OF this(1)] pow2_less_cancel[OF this(2)] show ?thesis by simp
qed


lemma quantum_pos [simp]: "0 < quantum a"
  by (simp add: quantum_def)

lemma quantum_nonneg [simp]: "0 \<le> quantum a"
  by (rule order.strict_implies_order) (rule quantum_pos)







lemma overflow_iff:
  assumes "0 < y" shows "1024 \<le> ilog2 y \<longleftrightarrow> 2 powi 1024 \<le> y"
proof
  assume "1024 \<le> ilog2 y"
  hence "(2::rat) powi 1024 \<le> 2 powi (ilog2 y)" by (rule pow2_mono)
  also have "\<dots> \<le> y" using ilog2_bounds[OF assms] by simp
  finally show "2 powi 1024 \<le> y" .
next
  assume "2 powi 1024 \<le> y"
  also have "y < 2 powi (ilog2 y + 1)" using ilog2_bounds[OF assms] by simp
  finally have "1024 < ilog2 y + 1" by (rule pow2_less_cancel)
  thus "1024 \<le> ilog2 y" by simp
qed







lemma fl_half [simp]: "fl (1 / 2) = Fin (1 / 2)"
  by code_simp



subsection \<open>Without jitter\<close>

text \<open>
  C5, as stated, fails: with base 1, multiplier 3 and attempt 40 the exact value
  \<open>3 ^ 39 = 4052555153018976267\<close> is not a double, and the delay computed is the
  nearest double, 4052555153018976256.
\<close>

theorem power_rounded_to_double:
  "fst (calculateRetryDelay 40 example_power world0) = Fin 4052555153018976256
   \<and> min (1 * 3 ^ nat (40 - 1)) 10000000000000000000 = (4052555153018976267 :: rat)"
  by code_simp



subsection \<open>With jitter\<close>





section \<open>Properties of withRetry\<close>

text \<open>Every rejection of \<open>withRetry\<close> is a \<open>RetryError\<close> whose \<open>attempts\<close> field is
  \<open>maxAttempts\<close>, however the loop was left.\<close>

lemma withRetry_loop_rejection:
  "withRetry_loop f config onRetry attempt lastErr s = (Inl e, s')
     \<Longrightarrow> \<exists>msg last. e = RetryError msg (maxAttempts config) last"
proof (induction f config onRetry attempt lastErr s rule: withRetry_loop.induct)
  case (1 f config onRetry attempt lastErr s)
  show ?case
  proof (cases "attempt \<le> maxAttempts config")
    case False
    with "1.prems" show ?thesis
      by (subst (asm) withRetry_loop.simps) (auto simp: throw_RetryError_def)
  next
    case le: True
    obtain out s1 where fs: "f s = (out, s1)" by (cases "f s")
    show ?thesis
    proof (cases out)
      case (Inr result)
      with "1.prems" le fs show ?thesis
        by (subst (asm) withRetry_loop.simps) simp
    next
      case (Inl error)
      define err where "err = (if instanceof_Error error then error
                               else new_Error (String_of_thrown error))"
      show ?thesis
      proof (cases "maxAttempts config \<le> attempt \<or> \<not> isRetryableError error config")
        case True
        with "1.prems" le fs Inl show ?thesis
          by (subst (asm) withRetry_loop.simps)
            (auto simp: throw_RetryError_def Let_def split: if_splits)
      next
        case False
        hence more: "\<not> maxAttempts config \<le> attempt" and retry: "isRetryableError error config"
          by simp_all
        obtain delayMs s2 where d: "calculateRetryDelay attempt config s1 = (delayMs, s2)"
          by (cases "calculateRetryDelay attempt config s1")
        define s3 where "s3 = (case onRetry of
                                 None \<Rightarrow> s2
                               | Some g \<Rightarrow> g \<lparr>ctx_attempt = attempt,
                                              ctx_maxAttempts = maxAttempts config,
                                              ctx_lastError = err,
                                              ctx_delayMs = delayMs\<rparr> s2)"
        have "withRetry_loop f config onRetry (attempt + 1) (Some err) (sleep delayMs s3)
                = (Inl e, s')"
          using "1.prems" le fs Inl more retry d unfolding err_def s3_def
          by (subst (asm) withRetry_loop.simps) (simp add: Let_def)
        from "1.IH"[OF le fs[symmetric] Inl err_def more _ refl d[symmetric] s3_def refl this]
          retry
        show ?thesis by simp
      qed
    qed
  qed
qed

lemma withRetry_rejection:
  "withRetry f (Some config) onRetry s = (Inl e, s')
     \<Longrightarrow> \<exists>msg last. e = RetryError msg (maxAttempts config) last"
  unfolding withRetry_def by (auto dest: withRetry_loop_rejection)


text \<open>
  C1 at a concrete input: an operation that always rejects with status 404 (which is
  not retryable) under \<open>maxAttempts = 3\<close> is invoked once, and the \<open>RetryError\<close>
  that \<open>withRetry\<close> raises carries \<open>attempts = 3\<close>.
\<close>

theorem withRetry_attempts_not_counted:
  "fst (withRetry (rejecting error_404 :: (nat, unit) async) (Some three_attempts) None world0)
     = Inl (RetryError ''Operation failed after 3 attempts: Not found'' 3 error_404)
   \<and> user (snd (withRetry (rejecting error_404 :: (nat, unit) async) (Some three_attempts) None world0)) = 1"
  by code_simp


section \<open>Properties of the circuit breaker\<close>

subsection \<open>Single steps\<close>

lemma getState_setState [simp]: "getState b (setState b upd reg) = upd (getState b reg)"
  by (simp add: getState_def setState_def)

lemma setState_setState [simp]:
  "setState b g (setState b f reg) = setState b (\<lambda>c. g (f c)) reg"
  by (simp add: getState_def setState_def)

lemma onFailure_ignored: "shouldIgnoreError b e \<Longrightarrow> onFailure b now e reg = reg"
  by (simp add: onFailure_def)

lemma checkStateTransition_not_open:
  "state (getState b reg) \<noteq> Open \<Longrightarrow> checkStateTransition b now reg = reg"
  by (simp add: checkStateTransition_def)

lemma checkStateTransition_waiting:
  assumes "state (getState b reg) = Open" "openedAt (getState b reg) = Some t"
    and "now - t < resetTimeoutMs (cb_config b)"
  shows "checkStateTransition b now reg = reg"
  using assms by (simp add: checkStateTransition_def)

lemma onFailure_closed_below:
  assumes "\<not> shouldIgnoreError b e" "state (getState b reg) = Closed"
    and "failureCount (getState b reg) + 1 < failureThreshold (cb_config b)"
  shows "state (getState b (onFailure b now e reg)) = Closed"
    and "failureCount (getState b (onFailure b now e reg)) = failureCount (getState b reg) + 1"
  using assms by (simp_all add: onFailure_def Let_def)

lemma onFailure_closed_reaching:
  assumes "\<not> shouldIgnoreError b e" "state (getState b reg) = Closed"
    and "failureThreshold (cb_config b) \<le> failureCount (getState b reg) + 1"
  shows "state (getState b (onFailure b now e reg)) = Open"
    and "failureCount (getState b (onFailure b now e reg)) = failureCount (getState b reg)"
    and "openedAt (getState b (onFailure b now e reg)) = Some now"
    and "successCount (getState b (onFailure b now e reg)) = 0"
  using assms by (simp_all add: onFailure_def Let_def transitionTo_def)


lemma call_invokes:
  assumes "state (getState b (circuitRegistry s)) \<noteq> Open"
  shows "call b f s =
     (case f s of
        (Inr v, s2) \<Rightarrow> (Inr v, s2\<lparr>circuitRegistry := onSuccess b (clock s2) (circuitRegistry s2)\<rparr>)
      | (Inl e, s2) \<Rightarrow> (Inl e, s2\<lparr>circuitRegistry := onFailure b (clock s2) e (circuitRegistry s2)\<rparr>))"
  using assms by (simp add: call_def checkStateTransition_not_open Let_def)

lemma call_rejected:
  assumes "state (getState b (circuitRegistry s)) \<noteq> Open"
    and "f s = (Inl e, s')" "circuitRegistry s' = circuitRegistry s"
  shows "call b f s = (Inl e, s'\<lparr>circuitRegistry := onFailure b (clock s') e (circuitRegistry s)\<rparr>)"
  using assms by (simp add: call_invokes)


lemma call_fails_fast:
  assumes "state (getState b (circuitRegistry s)) = Open"
    and "openedAt (getState b (circuitRegistry s)) = Some t" "t \<noteq> 0"
    and "clock s - t < resetTimeoutMs (cb_config b)"
  shows "call b f s = (Inl (CircuitBreakerOpenError (cb_name b)
                               (resetTimeoutMs (cb_config b) - (clock s - t))), s)"
  using assms by (simp add: call_def checkStateTransition_waiting Let_def remainingTimeoutMs_def)


subsection \<open>Runs of failures while closed\<close>

lemma rejected_call:
  assumes "rejects_with P f" "state (getState b (circuitRegistry s)) \<noteq> Open"
  obtains e s' where "f s = (Inl e, s')" "P e" "clock s \<le> clock s'"
    "circuitRegistry s' = circuitRegistry s"
    "call b f s = (Inl e, s'\<lparr>circuitRegistry := onFailure b (clock s') e (circuitRegistry s)\<rparr>)"
proof -
  from assms(1) obtain e s' where *: "f s = (Inl e, s')" "P e"
    "circuitRegistry s' = circuitRegistry s" "clock s \<le> clock s'"
    unfolding rejects_with_def by blast
  from call_rejected[of b s f e s', OF assms(2) *(1) *(3)] * that show thesis by blast
qed


lemma calls_append: "calls b (fs @ gs) s = calls b gs (calls b fs s)"
  by (induction fs arbitrary: s) simp_all

lemma calls_closed_below:
  assumes "\<forall>f\<in>set fs. rejects_with (\<lambda>e. \<not> shouldIgnoreError b e) f"
    and "state (getState b (circuitRegistry s)) = Closed"
    and "failureCount (getState b (circuitRegistry s)) + int (length fs)
           < failureThreshold (cb_config b)"
  shows "state (getState b (circuitRegistry (calls b fs s))) = Closed
       \<and> failureCount (getState b (circuitRegistry (calls b fs s)))
           = failureCount (getState b (circuitRegistry s)) + int (length fs)
       \<and> clock s \<le> clock (calls b fs s)"
  using assms
proof (induction fs arbitrary: s)
  case Nil
  then show ?case by simp
next
  case (Cons f fs)
  from Cons.prems(1) have rf: "rejects_with (\<lambda>e. \<not> shouldIgnoreError b e) f" by simp
  from Cons.prems(2) have no: "state (getState b (circuitRegistry s)) \<noteq> Open" by simp
  from rejected_call[OF rf no] obtain e s' where
    st: "\<not> shouldIgnoreError b e" "clock s \<le> clock s'"
      "call b f s = (Inl e, s'\<lparr>circuitRegistry := onFailure b (clock s') e (circuitRegistry s)\<rparr>)"
    by blast
  let ?s1 = "snd (call b f s)"
  have below: "failureCount (getState b (circuitRegistry s)) + 1 < failureThreshold (cb_config b)"
    using Cons.prems(3) by simp
  have reg1: "circuitRegistry ?s1 = onFailure b (clock s') e (circuitRegistry s)"
    and clk1: "clock ?s1 = clock s'" using st(3) by simp_all
  have c1: "state (getState b (circuitRegistry ?s1)) = Closed"
    and f1: "failureCount (getState b (circuitRegistry ?s1))
               = failureCount (getState b (circuitRegistry s)) + 1"
    unfolding reg1 using onFailure_closed_below[OF st(1) Cons.prems(2) below] by simp_all
  have "failureCount (getState b (circuitRegistry ?s1)) + int (length fs)
          < failureThreshold (cb_config b)"
    using f1 Cons.prems(3) by simp
  from Cons.IH[OF _ c1 this] Cons.prems(1)
  have "state (getState b (circuitRegistry (calls b fs ?s1))) = Closed
       \<and> failureCount (getState b (circuitRegistry (calls b fs ?s1)))
           = failureCount (getState b (circuitRegistry ?s1)) + int (length fs)
       \<and> clock ?s1 \<le> clock (calls b fs ?s1)" by simp
  with f1 clk1 st(2) show ?case by simp
qed

text \<open>The failure that reaches the threshold.\<close>

lemma call_closed_reaching:
  assumes "rejects_with (\<lambda>e. \<not> shouldIgnoreError b e) f"
    and "state (getState b (circuitRegistry s)) = Closed"
    and "failureThreshold (cb_config b) \<le> failureCount (getState b (circuitRegistry s)) + 1"
  shows "state (getState b (circuitRegistry (snd (call b f s)))) = Open
       \<and> failureCount (getState b (circuitRegistry (snd (call b f s))))
           = failureCount (getState b (circuitRegistry s))
       \<and> openedAt (getState b (circuitRegistry (snd (call b f s))))
           = Some (clock (snd (call b f s)))
       \<and> clock s \<le> clock (snd (call b f s))"
proof -
  from assms(2) have no: "state (getState b (circuitRegistry s)) \<noteq> Open" by simp
  from rejected_call[OF assms(1) no] obtain e s' where
    st: "\<not> shouldIgnoreError b e" "clock s \<le> clock s'"
      "call b f s = (Inl e, s'\<lparr>circuitRegistry := onFailure b (clock s') e (circuitRegistry s)\<rparr>)"
    by blast
  show ?thesis using st(2,3) onFailure_closed_reaching[OF st(1) assms(2,3)] by simp
qed

lemma calls_closed_to_open:
  assumes "\<forall>f\<in>set fs. rejects_with (\<lambda>e. \<not> shouldIgnoreError b e) f"
    and "state (getState b (circuitRegistry s)) = Closed"
    and "failureCount (getState b (circuitRegistry s)) < failureThreshold (cb_config b)"
    and "length fs = nat (failureThreshold (cb_config b)
                            - failureCount (getState b (circuitRegistry s)))"
  shows "state (getState b (circuitRegistry (calls b fs s))) = Open
       \<and> failureCount (getState b (circuitRegistry (calls b fs s)))
           = failureThreshold (cb_config b) - 1
       \<and> openedAt (getState b (circuitRegistry (calls b fs s))) = Some (clock (calls b fs s))
       \<and> clock s \<le> clock (calls b fs s)"
proof -
  from assms(3,4) have "fs \<noteq> []" by auto
  then obtain gs g where fs: "fs = gs @ [g]" by (metis rev_exhaust)
  let ?c = "failureCount (getState b (circuitRegistry s))"
  have len: "int (length gs) = failureThreshold (cb_config b) - ?c - 1"
    using assms(3,4) fs by simp
  have gs: "\<forall>f\<in>set gs. rejects_with (\<lambda>e. \<not> shouldIgnoreError b e) f"
    and g: "rejects_with (\<lambda>e. \<not> shouldIgnoreError b e) g" using assms(1) fs by simp_all
  have "?c + int (length gs) < failureThreshold (cb_config b)" using len by simp
  from calls_closed_below[OF gs assms(2) this]
  have mid: "state (getState b (circuitRegistry (calls b gs s))) = Closed"
    "failureCount (getState b (circuitRegistry (calls b gs s))) = ?c + int (length gs)"
    "clock s \<le> clock (calls b gs s)" by simp_all
  have "failureThreshold (cb_config b)
          \<le> failureCount (getState b (circuitRegistry (calls b gs s))) + 1"
    using mid(2) len by simp
  from call_closed_reaching[OF g mid(1) this] mid(2,3) len
  show ?thesis unfolding fs calls_append by simp
qed


subsection \<open>Opening at the threshold\<close>

text \<open>
  C2, as stated, fails for a policy whose \<open>resetTimeoutMs\<close> is 0: one failure opens
  the breaker (threshold 1), and the next call, made at the same clock reading, finds
  \<open>elapsed >= resetTimeoutMs\<close>, moves the breaker to half-open and invokes the
  operation, which resolves.
\<close>

theorem zero_reset_next_call_invokes:
  "state (getState breaker_no_wait
            (circuitRegistry (calls breaker_no_wait [rejecting error_500 :: (nat, unit) async] world0)))
     = Open
   \<and> clock (calls breaker_no_wait [rejecting error_500 :: (nat, unit) async] world0) = clock world0
   \<and> fst (call breaker_no_wait (resolving ())
            (calls breaker_no_wait [rejecting error_500 :: (nat, unit) async] world0)) = Inr ()
   \<and> user (snd (call breaker_no_wait (resolving ())
            (calls breaker_no_wait [rejecting error_500 :: (nat, unit) async] world0))) = 2"
  by code_simp

text \<open>
  C2, amended. A closed breaker whose counter holds \<open>c\<close> consecutive failures stays
  closed until the failures number \<open>failureThreshold\<close>, and is open after exactly that
  many; when \<open>resetTimeoutMs\<close> is positive (and the clock does not read 0), the next
  call made with no time elapsed rejects with a \<open>CircuitBreakerOpenError\<close> that carries
  the name of the breaker and the full \<open>resetTimeoutMs\<close> as remaining time, whatever
  the operation is, and leaves the world as it was: the operation is not invoked.
\<close>

theorem closed_opens_at_threshold_then_fails_fast:
  assumes "state (getState b (circuitRegistry s)) = Closed"
    and "failureCount (getState b (circuitRegistry s)) = c"
    and "c < failureThreshold (cb_config b)"
    and "length fs = nat (failureThreshold (cb_config b) - c)"
    and "\<forall>f\<in>set fs. rejects_with (\<lambda>e. \<not> shouldIgnoreError b e) f"
    and "0 < resetTimeoutMs (cb_config b)" and "0 < clock s"
  shows "(\<forall>k<length fs. state (getState b (circuitRegistry (calls b (take k fs) s))) = Closed)
       \<and> state (getState b (circuitRegistry (calls b fs s))) = Open
       \<and> (\<forall>g. call b g (calls b fs s)
                 = (Inl (CircuitBreakerOpenError (cb_name b) (resetTimeoutMs (cb_config b))),
                    calls b fs s))"
proof -
  have before: "state (getState b (circuitRegistry (calls b (take k fs) s))) = Closed"
    if "k < length fs" for k
  proof -
    have "\<forall>f\<in>set (take k fs). rejects_with (\<lambda>e. \<not> shouldIgnoreError b e) f"
      using assms(5) by (meson in_set_takeD)
    moreover have "failureCount (getState b (circuitRegistry s)) + int (length (take k fs))
                     < failureThreshold (cb_config b)"
      using that assms(2,3,4) by simp
    ultimately show ?thesis using calls_closed_below[OF _ assms(1)] by blast
  qed
  have c: "failureCount (getState b (circuitRegistry s)) < failureThreshold (cb_config b)"
    using assms(2,3) by simp
  have len: "length fs = nat (failureThreshold (cb_config b)
                                - failureCount (getState b (circuitRegistry s)))"
    using assms(2,4) by simp
  from calls_closed_to_open[OF assms(5,1) c len]
  have opened: "state (getState b (circuitRegistry (calls b fs s))) = Open"
    "openedAt (getState b (circuitRegistry (calls b fs s))) = Some (clock (calls b fs s))"
    "clock s \<le> clock (calls b fs s)" by simp_all
  have "clock (calls b fs s) \<noteq> 0" using opened(3) assms(7) by simp
  moreover have "clock (calls b fs s) - clock (calls b fs s) < resetTimeoutMs (cb_config b)"
    using assms(6) by simp
  ultimately have "call b g (calls b fs s)
      = (Inl (CircuitBreakerOpenError (cb_name b) (resetTimeoutMs (cb_config b))), calls b fs s)"
    for g :: "('a, 'c) async"
    using call_fails_fast[OF opened(1,2), of g] by simp
  with before opened(1) show ?thesis by blast
qed

lemma rejecting_rejects: "P e \<Longrightarrow> rejects_with P (rejecting e)"
  by (simp add: rejects_with_def rejecting_def)


theorem closed_opens_at_threshold_then_fails_fast_witness:
  "state (getState breaker_two (circuitRegistry world0)) = Closed
   \<and> failureCount (getState breaker_two (circuitRegistry world0)) = 0
   \<and> length [rejecting error_500 :: (nat, unit) async, rejecting error_500] = nat (2 - 0)
   \<and> state (getState breaker_two (circuitRegistry
        (calls breaker_two [rejecting error_500 :: (nat, unit) async] world0))) = Closed
   \<and> state (getState breaker_two (circuitRegistry
        (calls breaker_two [rejecting error_500 :: (nat, unit) async, rejecting error_500] world0)))
       = Open
   \<and> call breaker_two (resolving ())
        (calls breaker_two [rejecting error_500 :: (nat, unit) async, rejecting error_500] world0)
       = (Inl (CircuitBreakerOpenError ''svc'' 1000),
          calls breaker_two [rejecting error_500 :: (nat, unit) async, rejecting error_500] world0)"
proof -
  have ni: "\<not> shouldIgnoreError breaker_two error_500" by code_simp
  have h1: "state (getState breaker_two (circuitRegistry world0)) = Closed"
    and h2: "failureCount (getState breaker_two (circuitRegistry world0)) = 0"
    by (simp_all add: world0_def getState_def initial_state_def)
  have h3: "(0::int) < failureThreshold (cb_config breaker_two)"
    and h6: "0 < resetTimeoutMs (cb_config breaker_two)" and h7: "0 < clock world0"
    by (simp_all add: breaker_two_def world0_def)
  have h4: "length [rejecting error_500 :: (nat, unit) async, rejecting error_500]
              = nat (failureThreshold (cb_config breaker_two) - 0)"
    by (simp add: breaker_two_def)
  have h5: "\<forall>f\<in>set [rejecting error_500 :: (nat, unit) async, rejecting error_500].
              rejects_with (\<lambda>e. \<not> shouldIgnoreError breaker_two e) f"
    using ni by (simp add: rejecting_rejects)
  note r = closed_opens_at_threshold_then_fails_fast[OF h1 h2 h3 h4 h5 h6 h7]
  from r have "1 < length [rejecting error_500 :: (nat, unit) async, rejecting error_500] \<longrightarrow>
      state (getState breaker_two (circuitRegistry
        (calls breaker_two (take 1 [rejecting error_500 :: (nat, unit) async, rejecting error_500])
           world0))) = Closed" by (elim conjE allE)
  hence r1: "state (getState breaker_two (circuitRegistry
        (calls breaker_two [rejecting error_500 :: (nat, unit) async] world0))) = Closed" by simp
  from r have r2: "state (getState breaker_two (circuitRegistry
        (calls breaker_two [rejecting error_500 :: (nat, unit) async, rejecting error_500] world0)))
       = Open" by (elim conjE)
  from r have "\<forall>g :: (nat, unit) async. call breaker_two g
        (calls breaker_two [rejecting error_500 :: (nat, unit) async, rejecting error_500] world0)
       = (Inl (CircuitBreakerOpenError (cb_name breaker_two)
                 (resetTimeoutMs (cb_config breaker_two))),
          calls breaker_two [rejecting error_500 :: (nat, unit) async, rejecting error_500] world0)"
    by (elim conjE)
  hence r3: "call breaker_two (resolving ())
        (calls breaker_two [rejecting error_500 :: (nat, unit) async, rejecting error_500] world0)
       = (Inl (CircuitBreakerOpenError (cb_name breaker_two)
                 (resetTimeoutMs (cb_config breaker_two))),
          calls breaker_two [rejecting error_500 :: (nat, unit) async, rejecting error_500] world0)"
    by (rule spec)
  have nm: "cb_name breaker_two = ''svc''" "resetTimeoutMs (cb_config breaker_two) = 1000"
    by (simp_all add: breaker_two_def)
  show ?thesis using h1 h2 r1 r2 r3 unfolding nm by simp
qed


text \<open>
  C10. When the failures of a closed breaker reach \<open>failureThreshold\<close>, the failure
  counter reported by \<open>stats\<close> is \<open>failureThreshold - 1\<close> before the failure that
  opens the breaker and is still \<open>failureThreshold - 1\<close> after it: the transition to
  open stores the new state, not the incremented counter.
\<close>

theorem failureCount_not_written_on_opening:
  assumes "state (getState b (circuitRegistry s)) = Closed"
    and "failureCount (getState b (circuitRegistry s)) = c"
    and "c < failureThreshold (cb_config b)"
    and "length fs = nat (failureThreshold (cb_config b) - c)"
    and "\<forall>f\<in>set fs. rejects_with (\<lambda>e. \<not> shouldIgnoreError b e) f"
  shows "stats_state (stats b now (circuitRegistry (calls b (butlast fs) s))) = Closed
       \<and> stats_failureCount (stats b now (circuitRegistry (calls b (butlast fs) s)))
           = failureThreshold (cb_config b) - 1
       \<and> stats_state (stats b now (circuitRegistry (calls b fs s))) = Open
       \<and> stats_failureCount (stats b now (circuitRegistry (calls b fs s)))
           = failureThreshold (cb_config b) - 1"
proof -
  have c: "failureCount (getState b (circuitRegistry s)) < failureThreshold (cb_config b)"
    using assms(2,3) by simp
  have len: "length fs = nat (failureThreshold (cb_config b)
                                - failureCount (getState b (circuitRegistry s)))"
    using assms(2,4) by simp
  have bl: "\<forall>f\<in>set (butlast fs). rejects_with (\<lambda>e. \<not> shouldIgnoreError b e) f"
    using assms(5) by (meson in_set_butlastD)
  have "failureCount (getState b (circuitRegistry s)) + int (length (butlast fs))
          < failureThreshold (cb_config b)"
    using assms(2,3,4) by simp
  from calls_closed_below[OF bl assms(1) this]
  have before: "state (getState b (circuitRegistry (calls b (butlast fs) s))) = Closed"
    "failureCount (getState b (circuitRegistry (calls b (butlast fs) s)))
       = failureThreshold (cb_config b) - 1"
    using assms(2,3,4) by simp_all
  from calls_closed_to_open[OF assms(5,1) c len]
  have after: "state (getState b (circuitRegistry (calls b fs s))) = Open"
    "failureCount (getState b (circuitRegistry (calls b fs s)))
       = failureThreshold (cb_config b) - 1" by simp_all
  show ?thesis using before after by (simp add: stats_def Let_def)
qed

theorem failureCount_not_written_on_opening_witness:
  "state (getState breaker_two (circuitRegistry world0)) = Closed
   \<and> failureCount (getState breaker_two (circuitRegistry world0)) = 0
   \<and> failureThreshold (cb_config breaker_two) = 2
   \<and> stats_state (stats breaker_two 1000 (circuitRegistry
        (calls breaker_two [rejecting error_500 :: (nat, unit) async, rejecting error_500] world0)))
       = Open
   \<and> stats_failureCount (stats breaker_two 1000 (circuitRegistry
        (calls breaker_two [rejecting error_500 :: (nat, unit) async, rejecting error_500] world0)))
       = 1"
proof -
  have ni: "\<not> shouldIgnoreError breaker_two error_500" by code_simp
  have h1: "state (getState breaker_two (circuitRegistry world0)) = Closed"
    and h2: "failureCount (getState breaker_two (circuitRegistry world0)) = 0"
    by (simp_all add: world0_def getState_def initial_state_def)
  have h3: "(0::int) < failureThreshold (cb_config breaker_two)"
    and t: "failureThreshold (cb_config breaker_two) = 2"
    by (simp_all add: breaker_two_def)
  have h4: "length [rejecting error_500 :: (nat, unit) async, rejecting error_500]
              = nat (failureThreshold (cb_config breaker_two) - 0)"
    by (simp add: breaker_two_def)
  have h5: "\<forall>f\<in>set [rejecting error_500 :: (nat, unit) async, rejecting error_500].
              rejects_with (\<lambda>e. \<not> shouldIgnoreError breaker_two e) f"
    using ni by (simp add: rejecting_rejects)
  from failureCount_not_written_on_opening[OF h1 h2 h3 h4 h5, of 1000] h1 h2 t
  show ?thesis by simp
qed

subsection \<open>Half-open\<close>









subsection \<open>Ignored failures\<close>

lemma calls_ignored:
  assumes "\<forall>f\<in>set fs. rejects_with (shouldIgnoreError b) f"
    and "state (getState b (circuitRegistry s)) \<noteq> Open"
  shows "circuitRegistry (calls b fs s) = circuitRegistry s"
  using assms
proof (induction fs arbitrary: s)
  case Nil
  then show ?case by simp
next
  case (Cons f fs)
  from Cons.prems(1) have rf: "rejects_with (shouldIgnoreError b) f" by simp
  from rejected_call[OF rf Cons.prems(2)] obtain e s' where
    st: "shouldIgnoreError b e"
      "call b f s = (Inl e, s'\<lparr>circuitRegistry := onFailure b (clock s') e (circuitRegistry s)\<rparr>)"
    by blast
  have reg1: "circuitRegistry (snd (call b f s)) = circuitRegistry s"
    using st by (simp add: onFailure_ignored)
  with Cons.prems(2) have "state (getState b (circuitRegistry (snd (call b f s)))) \<noteq> Open"
    by simp
  from Cons.IH[OF _ this] Cons.prems(1) reg1 show ?case by simp
qed

text \<open>
  C8. Failures whose status code is in the ignored set, however many, leave the record
  of the breaker as it was: state, both counters, last error and every other field;
  each call rejects with the error the operation rejected with. The decision is
  taken in \<open>onFailure\<close>, which returns at once for such an error.
\<close>

theorem ignored_failures_leave_record_unchanged:
  assumes "\<forall>f\<in>set fs. rejects_with (shouldIgnoreError b) f"
    and "state (getState b (circuitRegistry s)) \<noteq> Open"
  shows "circuitRegistry (calls b fs s) = circuitRegistry s
       \<and> stats b now (circuitRegistry (calls b fs s)) = stats b now (circuitRegistry s)
       \<and> (\<forall>f\<in>set fs. fst (call b f s) = fst (f s))
       \<and> (\<forall>e t reg. shouldIgnoreError b e \<longrightarrow> onFailure b t e reg = reg)"
proof -
  have reg: "circuitRegistry (calls b fs s) = circuitRegistry s"
    using calls_ignored[OF assms] .
  have "fst (call b f s) = fst (f s)" if "f \<in> set fs" for f
  proof -
    from that assms(1) have "rejects_with (shouldIgnoreError b) f" by simp
    from rejected_call[OF this assms(2)] obtain e s' where
      "f s = (Inl e, s')"
      "call b f s = (Inl e, s'\<lparr>circuitRegistry := onFailure b (clock s') e (circuitRegistry s)\<rparr>)"
      by blast
    thus ?thesis by simp
  qed
  with reg show ?thesis by (simp add: onFailure_ignored)
qed

theorem ignored_failures_leave_record_unchanged_witness:
  "state (getState breaker_two (circuitRegistry world0)) \<noteq> Open
   \<and> shouldIgnoreError breaker_two error_404 \<and> shouldIgnoreError breaker_two error_404_status
   \<and> stats breaker_two 1000 (circuitRegistry
        (calls breaker_two [rejecting error_404 :: (nat, unit) async, rejecting error_404_status,
           rejecting error_404] world0))
       = stats breaker_two 1000 (circuitRegistry world0)
   \<and> fst (call breaker_two (rejecting error_404 :: (nat, unit) async) world0) = Inl error_404"
proof -
  have ig: "shouldIgnoreError breaker_two error_404"
    "shouldIgnoreError breaker_two error_404_status" by code_simp+
  have h: "state (getState breaker_two (circuitRegistry world0)) \<noteq> Open"
    by (simp add: world0_def getState_def initial_state_def)
  have rs: "\<forall>f\<in>set [rejecting error_404 :: (nat, unit) async, rejecting error_404_status,
              rejecting error_404]. rejects_with (shouldIgnoreError breaker_two) f"
    using ig by (simp add: rejecting_rejects)
  from ignored_failures_leave_record_unchanged[OF rs h, of 1000] ig h
  show ?thesis by (simp add: rejecting_def)
qed


subsection \<open>Handles of one name\<close>











section \<open>Properties of the timers\<close>

text \<open>
  C7, as stated, fails for \<open>createTimeoutController\<close>: the timer it sets is pending
  when it returns, nothing can clear it (its identifier is dropped), and it is still
  pending 10 ms later, when an operation guarded by the controller may long have
  settled.
\<close>

theorem createTimeoutController_timer_stays_pending:
  "timers (snd (createTimeoutController 5000 world0)) = [(0, 6000)]
   \<and> timers (elapse 10 (snd (createTimeoutController 5000 world0))) = [(0, 6000)]"
  by (simp add: createTimeoutController_def setTimeout_def elapse_def world0_def)

lemma filter_other_ids:
  fixes n :: nat
  assumes "\<forall>t\<in>set ts. fst t < n"
  shows "filter (\<lambda>t. fst t \<noteq> n) (filter P ts) = filter P ts"
proof (rule filter_True, rule ballI)
  fix t assume "t \<in> set (filter P ts)"
  hence "t \<in> set ts" by simp
  with assms have "fst t < n" by blast
  thus "fst t \<noteq> n" by simp
qed

lemma own_timer_released:
  assumes "timers_wf s"
  shows "timers (clearTimeout (nextTimerId s) (elapse d (snd (setTimeout ms s))))
           = filter (\<lambda>t. clock s + d < snd t) (timers s)"
    and "clock (clearTimeout (nextTimerId s) (elapse d (snd (setTimeout ms s)))) = clock s + d"
  using assms filter_other_ids[of "timers s" "nextTimerId s" "\<lambda>t. clock s + d < snd t"]
  by (simp_all add: clearTimeout_def elapse_def setTimeout_def timers_wf_def)

lemma withTimeout_timers:
  assumes "timers_wf s"
  shows "timers (snd (withTimeout p timeoutMs label s))
           = filter (\<lambda>t. clock (snd (withTimeout p timeoutMs label s)) < snd t) (timers s)"
proof -
  define d where "d = (case p of
      Settles outcome d \<Rightarrow> if d \<le> max 0 timeoutMs then max 0 d else max 0 timeoutMs
    | Never \<Rightarrow> max 0 timeoutMs)"
  have "snd (withTimeout p timeoutMs label s)
          = clearTimeout (nextTimerId s) (elapse d (snd (setTimeout timeoutMs s)))"
    unfolding d_def
    by (simp add: withTimeout_def setTimeout_def Let_def split: promise.splits)
  with own_timer_released[OF assms, of d timeoutMs] show ?thesis by simp
qed

lemma sleep_timers:
  assumes "timers_wf s"
  shows "timers (sleep ms s) = filter (\<lambda>t. clock (sleep ms s) < snd t) (timers s)"
proof -
  show ?thesis
    by (simp add: sleep_def setTimeout_def elapse_def Let_def)
qed

lemma clearTimeout_absent: "timeoutId \<notin> fst ` set (timers (clearTimeout timeoutId s))"
  by (auto simp: clearTimeout_def)

lemma fetchWithTimeout_timer:
  "nextTimerId s \<notin> fst ` set (timers (snd (fetchWithTimeout fetch timeoutArg s)))"
proof -
  have "\<exists>s3. snd (fetchWithTimeout fetch timeoutArg s) = clearTimeout (nextTimerId s) s3"
    by (simp add: fetchWithTimeout_def setTimeout_def Let_def case_prod_beta) blast
  then obtain s3 where
    "snd (fetchWithTimeout fetch timeoutArg s) = clearTimeout (nextTimerId s) s3" by blast
  thus ?thesis by (simp only: clearTimeout_absent not_False_eq_True)
qed

text \<open>
  C7, amended. When \<open>withTimeout\<close> returns, on either side of the race, and when
  \<open>sleep\<close> resolves, the pending timers are the earlier ones that are not yet due:
  the timer of the function itself is gone. When \<open>fetchWithTimeout\<close> returns,
  whatever the transport did, its abort timer is not pending. The timer of
  \<open>createTimeoutController\<close> stays pending until its delay has elapsed.
\<close>

theorem own_timers_not_left_pending:
  assumes "timers_wf s"
  shows "timers (snd (withTimeout p timeoutMs label s))
           = filter (\<lambda>t. clock (snd (withTimeout p timeoutMs label s)) < snd t) (timers s)
       \<and> nextTimerId s \<notin> fst ` set (timers (snd (fetchWithTimeout fetch timeoutArg s)))
       \<and> timers (sleep ms s) = filter (\<lambda>t. clock (sleep ms s) < snd t) (timers s)
       \<and> (0 \<le> d \<and> d < timeoutMs
            \<longrightarrow> (nextTimerId s, clock s + timeoutMs)
                  \<in> set (timers (elapse d (snd (createTimeoutController timeoutMs s)))))"
proof -
  have "(nextTimerId s, clock s + timeoutMs)
          \<in> set (timers (elapse d (snd (createTimeoutController timeoutMs s))))"
    if "0 \<le> d \<and> d < timeoutMs"
    using that by (simp add: createTimeoutController_def setTimeout_def elapse_def)
  with withTimeout_timers[OF assms, of p timeoutMs label] sleep_timers[OF assms, of ms]
    fetchWithTimeout_timer[of s fetch timeoutArg]
  show ?thesis by blast
qed

theorem own_timers_not_left_pending_witness:
  "timers_wf world_timer
   \<and> timers (snd (withTimeout (Settles (Inr ()) 5) 100 None world_timer)) = [(0, 1500)]
   \<and> timers (snd (withTimeout (Never :: unit promise) 100 None world_timer)) = [(0, 1500)]
   \<and> 1 \<notin> fst ` set (timers (snd (fetchWithTimeout (server 200 5) (Some 100) world_timer)))
   \<and> timers (sleep (Fin 20) world_timer) = [(0, 1500)]
   \<and> (1, 1100) \<in> set (timers (elapse 5 (snd (createTimeoutController 100 world_timer))))"
proof -
  have wf: "timers_wf world_timer" by (simp add: timers_wf_def world_timer_def)
  have c: "clock (snd (withTimeout (Settles (Inr ()) 5) 100 None world_timer)) = 1005"
    "clock (snd (withTimeout (Never :: unit promise) 100 None world_timer)) = 1100"
    "clock (sleep (Fin 20) world_timer) = 1020"
    by (simp_all add: withTimeout_def sleep_def timer_delay_def setTimeout_def elapse_def
        clearTimeout_def world_timer_def world0_def)
  have v: "timers world_timer = [(0, 1500)]" "nextTimerId world_timer = 1"
    "clock world_timer = 1000"
    by (simp_all add: world_timer_def world0_def)
  from own_timers_not_left_pending[OF wf, of "Settles (Inr ()) 5" 100 None "server 200 5"
      "Some 100" "Fin 20" 5]
    own_timers_not_left_pending[OF wf, of "Never :: unit promise" 100 None "server 200 5"
      "Some 100" "Fin 20" 5] wf
  show ?thesis unfolding c v by simp
qed


section \<open>Properties of resilientFetch\<close>

subsection \<open>The message of a promoted response\<close>










subsection \<open>What the layers see\<close>













end
